theory Spec2Isabelle
  imports Main "HOL-Library.AList" "HOL-Library.Sublist"
begin

section \<open>The catalog: sources, owners and repositories\<close>

text \<open>
  The structs of \<^verbatim>\<open>main.go\<close> become records. Three of them have a
  field called \<^verbatim>\<open>source\<close> and two a field called \<^verbatim>\<open>maxLength\<close>;
  the fields of \<^verbatim>\<open>goRepo\<close> keep their names, the others carry a prefix
  that names their struct.
\<close>

record sourceType =
  st_source :: string

definition newSource :: "string \<Rightarrow> sourceType" where
  "newSource s = \<lparr>st_source = s\<rparr>"

record ownerType =
  ot_owner :: string
  ot_source :: string

definition newOwner :: "string \<Rightarrow> string \<Rightarrow> ownerType" where
  "newOwner ow s = \<lparr>ot_owner = ow, ot_source = s\<rparr>"

text \<open>
  A Go \<^verbatim>\<open>map[K]bool\<close> is an association list with at most one pair for
  each key. Reading a key that is absent gives the zero value \<^verbatim>\<open>false\<close>;
  an assignment replaces the value of a key that is present and adds the key
  otherwise; \<^verbatim>\<open>range\<close> yields every key once. Go leaves the order of
  \<^verbatim>\<open>range\<close> open, the list fixes one order (that of first insertion), so the
  theorems below speak of a result only up to its order (its length, its
  elements, whether it repeats one).
\<close>

type_synonym 'k gomap = "('k \<times> bool) list"

definition mapIndex :: "'k gomap \<Rightarrow> 'k \<Rightarrow> bool" where
  "mapIndex m k = (case map_of m k of None \<Rightarrow> False | Some b \<Rightarrow> b)"

definition mapAssign :: "'k \<Rightarrow> bool \<Rightarrow> 'k gomap \<Rightarrow> 'k gomap" where
  "mapAssign k v m = AList.update k v m"

definition mapKeys :: "'k gomap \<Rightarrow> 'k list" where
  "mapKeys m = map fst m"

text \<open>Go's \<^verbatim>\<open>len\<close> of a string counts bytes, as \<^const>\<open>length\<close> does on a
  \<^typ>\<open>string\<close>; it is an \<^verbatim>\<open>int\<close>.\<close>

definition len :: "string \<Rightarrow> int" where
  "len s = int (length s)"

record sourcesList =
  sources :: "sourceType gomap"
  sl_maxLength :: int

definition newSourcesList :: sourcesList where
  "newSourcesList = \<lparr>sources = [], sl_maxLength = 0\<rparr>"

definition addSource :: "sourceType \<Rightarrow> sourcesList \<Rightarrow> sourcesList" where
  "addSource src s =
     (let s1 = (if \<not> mapIndex (sources s) src
                then s\<lparr>sources := mapAssign src True (sources s)\<rparr> else s)
      in if len (st_source src) > sl_maxLength s1
         then s1\<lparr>sl_maxLength := len (st_source src)\<rparr> else s1)"

record ownersList =
  owners :: "ownerType gomap"
  ol_maxLength :: int

definition newOwnersList :: ownersList where
  "newOwnersList = \<lparr>owners = [], ol_maxLength = 0\<rparr>"

definition addOwner :: "ownerType \<Rightarrow> ownersList \<Rightarrow> ownersList" where
  "addOwner ow l =
     (let l1 = (if \<not> mapIndex (owners l) ow
                then l\<lparr>owners := mapAssign ow True (owners l)\<rparr> else l)
      in if len (ot_owner ow) > ol_maxLength l1
         then l1\<lparr>ol_maxLength := len (ot_owner ow)\<rparr> else l1)"

record goRepo =
  source :: string
  owner :: string
  repo :: string

record Projects =
  p_sources :: sourcesList
  p_owners :: ownersList
  repos :: "goRepo list"

definition NewProjects :: Projects where
  "NewProjects = \<lparr>p_sources = newSourcesList, p_owners = newOwnersList, repos = []\<rparr>"

definition AddRepo :: "goRepo \<Rightarrow> Projects \<Rightarrow> Projects" where
  "AddRepo r p =
     \<lparr>p_sources = addSource (newSource (source r)) (p_sources p),
      p_owners = addOwner (newOwner (owner r) (source r)) (p_owners p),
      repos = repos p @ [r]\<rparr>"

definition Sources :: "Projects \<Rightarrow> string list" where
  "Sources p = map st_source (mapKeys (sources (p_sources p)))"

definition Owners :: "Projects \<Rightarrow> string list" where
  "Owners p = map ot_owner (mapKeys (owners (p_owners p)))"

text \<open>The catalog after a sequence of \<^verbatim>\<open>AddRepo\<close> calls on a fresh one.\<close>

definition addAll :: "goRepo list \<Rightarrow> Projects \<Rightarrow> Projects" where
  "addAll rs p = foldl (\<lambda>q r. AddRepo r q) p rs"

definition addSources :: "sourceType list \<Rightarrow> sourcesList \<Rightarrow> sourcesList" where
  "addSources xs s = foldl (\<lambda>q x. addSource x q) s xs"

definition addOwners :: "ownerType list \<Rightarrow> ownersList \<Rightarrow> ownersList" where
  "addOwners xs l = foldl (\<lambda>q x. addOwner x q) l xs"

text \<open>Presence in an index is what the code tests: the key reads as \<^verbatim>\<open>true\<close>.\<close>

definition hasSource :: "Projects \<Rightarrow> string \<Rightarrow> bool" where
  "hasSource p s = mapIndex (sources (p_sources p)) (newSource s)"

definition hasOwner :: "Projects \<Rightarrow> string \<Rightarrow> string \<Rightarrow> bool" where
  "hasOwner p ow s = mapIndex (owners (p_owners p)) (newOwner ow s)"

definition indexed :: "Projects \<Rightarrow> bool" where
  "indexed p = list_all (\<lambda>r. hasSource p (source r) \<and> hasOwner p (owner r) (source r)) (repos p)"

section \<open>Paths\<close>

text \<open>
  The program runs on a system whose \<^verbatim>\<open>filepath.Separator\<close> is the slash,
  where \<^verbatim>\<open>path.Join\<close> and \<^verbatim>\<open>filepath.Join\<close> agree.
\<close>

definition Separator :: char where
  "Separator = CHR ''/''"

text \<open>\<^verbatim>\<open>strings.Split\<close> with a separator of one byte: the pieces between the
  separators, empty pieces included, so the result is never empty (the first
  branch of the \<open>case\<close> below is never taken).\<close>

fun Split :: "string \<Rightarrow> char \<Rightarrow> string list" where
  "Split [] c = [[]]"
| "Split (x # xs) c =
     (if x = c then [] # Split xs c
      else case Split xs c of [] \<Rightarrow> [[x]] | s # ss \<Rightarrow> (x # s) # ss)"

fun joinStrings :: "string list \<Rightarrow> string \<Rightarrow> string" where
  "joinStrings [] sep = []"
| "joinStrings [s] sep = s"
| "joinStrings (s # t # ss) sep = s @ sep @ joinStrings (t # ss) sep"

text \<open>
  \<^verbatim>\<open>path.Clean\<close>. Go scans the bytes and keeps a write position; the model
  scans the elements between the slashes and keeps the elements written so far,
  last one first. An empty element and \<^verbatim>\<open>.\<close> are dropped, \<^verbatim>\<open>..\<close>
  removes the element before it when that is a name, is kept at the front of
  a path that is not rooted, and is dropped at the front of a rooted one.
\<close>

fun cleanElems :: "bool \<Rightarrow> string list \<Rightarrow> string list \<Rightarrow> string list" where
  "cleanElems rooted out [] = rev out"
| "cleanElems rooted out (s # ss) =
     (if s = [] \<or> s = ''.'' then cleanElems rooted out ss
      else if s = ''..'' then
        (if out \<noteq> [] \<and> hd out \<noteq> ''..'' then cleanElems rooted (tl out) ss
         else if \<not> rooted then cleanElems rooted (s # out) ss
         else cleanElems rooted out ss)
      else cleanElems rooted (s # out) ss)"

definition Clean :: "string \<Rightarrow> string" where
  "Clean path =
     (if path = [] then ''.''
      else let rooted = (hd path = CHR ''/'');
               body = joinStrings (cleanElems rooted [] (Split path (CHR ''/''))) ''/'';
               out = (if rooted then CHR ''/'' # body else body)
           in if out = [] then ''.'' else out)"

text \<open>\<^verbatim>\<open>path.Join\<close>: the elements that are not empty, joined by slashes, then
  cleaned; the empty string when every element is empty.\<close>

fun joinBuf :: "string \<Rightarrow> string list \<Rightarrow> string" where
  "joinBuf buf [] = buf"
| "joinBuf buf (e # es) =
     (if buf \<noteq> [] \<or> e \<noteq> []
      then joinBuf ((if buf \<noteq> [] then buf @ ''/'' else buf) @ e) es
      else joinBuf buf es)"

definition Join :: "string list \<Rightarrow> string" where
  "Join elem = (if concat elem = [] then [] else Clean (joinBuf [] elem))"

section \<open>Decomposition of a repository path\<close>

text \<open>The run-time panics of the program.\<close>

datatype error = IndexOutOfRange | NilDereference

text \<open>Indexing a slice with an \<^verbatim>\<open>int\<close>: out of range, the program panics.\<close>

definition index :: "'a list \<Rightarrow> int \<Rightarrow> error + 'a" where
  "index xs i = (if 0 \<le> i \<and> i < int (length xs) then Inr (xs ! nat i) else Inl IndexOutOfRange)"

text \<open>
  \<^verbatim>\<open>parsegoRepo\<close> writes to the global \<^verbatim>\<open>allProjects\<close>; the model takes the
  catalog and returns the new one. The fields of the struct literal are
  evaluated in the order they are written.
\<close>

definition parsegoRepo :: "string \<Rightarrow> Projects \<Rightarrow> error + Projects" where
  "parsegoRepo path p =
     (let parts = Split path Separator;
          n = int (length parts)
      in case index parts (n - 1) of Inl e \<Rightarrow> Inl e | Inr s \<Rightarrow>
        (case index parts (n - 2) of Inl e \<Rightarrow> Inl e | Inr ow \<Rightarrow>
        (case index parts (n - 3) of Inl e \<Rightarrow> Inl e | Inr rp \<Rightarrow>
           Inr (AddRepo \<lparr>source = s, owner = ow, repo = rp\<rparr> p))))"

section \<open>The repository-root check\<close>

text \<open>
  \<^verbatim>\<open>os.Stat\<close> is the program's view of the file system: for a path it gives
  a \<^verbatim>\<open>FileInfo\<close>, of which the program reads \<^verbatim>\<open>IsDir\<close> only, or an error.
  Of an error the program asks \<^verbatim>\<open>os.IsNotExist\<close> only, so there are two:
  one for which it holds and one for which it does not (permission denied, a
  file where a directory is expected, and so on). With an error the
  \<^verbatim>\<open>FileInfo\<close> is \<^verbatim>\<open>nil\<close>, and calling \<^verbatim>\<open>IsDir\<close> on it panics.
\<close>

datatype stat_error = ErrNotExist | ErrOther

record FileInfo =
  IsDir :: bool

type_synonym stat = "string \<Rightarrow> stat_error + FileInfo"

definition IsNotExist :: "stat_error \<Rightarrow> bool" where
  "IsNotExist err = (err = ErrNotExist)"

definition isDir :: "stat \<Rightarrow> string \<Rightarrow> error + bool" where
  "isDir Stat path =
     (case Stat path of
        Inl err \<Rightarrow> if IsNotExist err then Inr False else Inl NilDereference
      | Inr fileInfo \<Rightarrow> Inr (IsDir fileInfo))"

definition isGitRoot :: "stat \<Rightarrow> string \<Rightarrow> error + bool" where
  "isGitRoot Stat dir = isDir Stat (Join [dir, ''.git''])"

text \<open>Go's \<^verbatim>\<open>&&\<close> evaluates its right operand only when the left one is true.\<close>

definition isGogoRepo :: "stat \<Rightarrow> string \<Rightarrow> error + bool" where
  "isGogoRepo Stat path =
     (case isDir Stat path of
        Inl e \<Rightarrow> Inl e
      | Inr b \<Rightarrow> if b then isGitRoot Stat path else Inr False)"

section \<open>The walk\<close>

text \<open>
  The state of a run: the global catalog \<^verbatim>\<open>allProjects\<close>, and the paths
  \<^verbatim>\<open>visit\<close> has been called with so far, oldest first. The second is not a
  variable of the program; it records the calls so that the theorems can
  speak of what the walk visits.
\<close>

record world =
  allProjects :: Projects
  visited :: "string list"

text \<open>What \<^verbatim>\<open>visit\<close> returns to \<^verbatim>\<open>filepath.Walk\<close>: \<^verbatim>\<open>nil\<close> or
  \<^verbatim>\<open>filepath.SkipDir\<close>.\<close>

datatype walkError = ErrNil | SkipDir

text \<open>\<^verbatim>\<open>visit\<close> ignores the \<^verbatim>\<open>FileInfo\<close> and the error it is handed, so the
  model does not pass them.\<close>

definition visit :: "stat \<Rightarrow> string \<Rightarrow> world \<Rightarrow> error + (walkError \<times> world)" where
  "visit Stat path w =
     (let w1 = w\<lparr>visited := visited w @ [path]\<rparr>
      in case isGogoRepo Stat path of
           Inl e \<Rightarrow> Inl e
         | Inr b \<Rightarrow>
             if b then
               (case parsegoRepo path (allProjects w1) of
                  Inl e \<Rightarrow> Inl e
                | Inr p \<Rightarrow> Inr (SkipDir, w1\<lparr>allProjects := p\<rparr>))
             else Inr (ErrNil, w1))"

text \<open>
  What \<^verbatim>\<open>filepath.Walk\<close> sees below the root, through \<^verbatim>\<open>os.Lstat\<close> and the
  listing of directories: a finite tree. A directory holds its entries in the
  order in which \<^verbatim>\<open>Walk\<close> takes them, which is by name.
\<close>

datatype fsnode = File | Dir "(string \<times> fsnode) list"

fun isDirNode :: "fsnode \<Rightarrow> bool" where
  "isDirNode File = False"
| "isDirNode (Dir es) = True"

text \<open>
  \<^verbatim>\<open>filepath.walk\<close> of the standard library, with \<^verbatim>\<open>visit\<close> as its function.
  A file is handed to \<^verbatim>\<open>visit\<close>, whose answer is returned. A directory is
  handed to \<^verbatim>\<open>visit\<close> first; any answer but \<^verbatim>\<open>nil\<close> is returned at
  once, otherwise the entries are walked in turn. \<^verbatim>\<open>SkipDir\<close> from the walk
  of an entry that is a directory is dropped; from an entry that is not, it
  ends the loop and is returned.
\<close>

fun walk :: "stat \<Rightarrow> string \<Rightarrow> fsnode \<Rightarrow> world \<Rightarrow> error + (walkError \<times> world)"
  and walkEntries :: "stat \<Rightarrow> string \<Rightarrow> (string \<times> fsnode) list \<Rightarrow> world \<Rightarrow> error + (walkError \<times> world)"
where
  "walk Stat path File w = visit Stat path w"
| "walk Stat path (Dir es) w =
     (case visit Stat path w of
        Inl e \<Rightarrow> Inl e
      | Inr (err1, w1) \<Rightarrow>
          if err1 \<noteq> ErrNil then Inr (err1, w1) else walkEntries Stat path es w1)"
| "walkEntries Stat path [] w = Inr (ErrNil, w)"
| "walkEntries Stat path ((name, node) # es) w =
     (case walk Stat (Join [path, name]) node w of
        Inl e \<Rightarrow> Inl e
      | Inr (err, w1) \<Rightarrow>
          if err \<noteq> ErrNil \<and> (\<not> isDirNode node \<or> err \<noteq> SkipDir) then Inr (err, w1)
          else walkEntries Stat path es w1)"

text \<open>
  \<^verbatim>\<open>filepath.Walk\<close>: when \<^verbatim>\<open>os.Lstat\<close> of the root fails (\<^const>\<open>None\<close>),
  \<^verbatim>\<open>visit\<close> is called once with the root; otherwise the root is walked. The
  error \<^verbatim>\<open>Walk\<close> returns is dropped by \<^verbatim>\<open>main\<close>.
\<close>

definition Walk :: "stat \<Rightarrow> string \<Rightarrow> fsnode option \<Rightarrow> world \<Rightarrow> error + world" where
  "Walk Stat root info w =
     (case (case info of None \<Rightarrow> visit Stat root w | Some node \<Rightarrow> walk Stat root node w) of
        Inl e \<Rightarrow> Inl e
      | Inr (err, w1) \<Rightarrow> Inr w1)"

definition initial :: world where
  "initial = \<lparr>allProjects = NewProjects, visited = []\<rparr>"

text \<open>
  A file system without links, as a tree from the directory \<^verbatim>\<open>/\<close>, which
  is the working directory too. \<^verbatim>\<open>resolve\<close> follows the elements of a path
  from a directory, keeping the directories above it for \<^verbatim>\<open>..\<close>: a missing
  entry is \<^const>\<open>ErrNotExist\<close>, an element to be looked up in a file is
  \<^const>\<open>ErrOther\<close>.
\<close>

fun resolve :: "fsnode list \<Rightarrow> fsnode \<Rightarrow> string list \<Rightarrow> stat_error + fsnode" where
  "resolve up node [] = Inr node"
| "resolve up File (s # ss) = Inl ErrOther"
| "resolve up (Dir es) (s # ss) =
     (if s = [] \<or> s = ''.'' then resolve up (Dir es) ss
      else if s = ''..'' then
        (case up of [] \<Rightarrow> resolve [] (Dir es) ss | d # ds \<Rightarrow> resolve ds d ss)
      else case map_of es s of
             None \<Rightarrow> Inl ErrNotExist
           | Some node \<Rightarrow> resolve (Dir es # up) node ss)"

definition lookupPath :: "fsnode \<Rightarrow> string \<Rightarrow> stat_error + fsnode" where
  "lookupPath fs path =
     (if path = [] then Inl ErrNotExist else resolve [] fs (Split path (CHR ''/'')))"

definition fsStat :: "fsnode \<Rightarrow> stat" where
  "fsStat fs path =
     (case lookupPath fs path of
        Inl err \<Rightarrow> Inl err
      | Inr node \<Rightarrow> Inr \<lparr>IsDir = isDirNode node\<rparr>)"

definition fsLstat :: "fsnode \<Rightarrow> string \<Rightarrow> fsnode option" where
  "fsLstat fs path = (case lookupPath fs path of Inl err \<Rightarrow> None | Inr node \<Rightarrow> Some node)"

text \<open>\<^verbatim>\<open>main\<close> up to the printing, on the file system \<^verbatim>\<open>fs\<close> with the
  environment variable \<^verbatim>\<open>GOPATH\<close> set to \<^verbatim>\<open>gopath\<close>.\<close>

definition main :: "fsnode \<Rightarrow> string \<Rightarrow> error + world" where
  "main fs gopath =
     (if gopath = [] then Inr initial
      else Walk (fsStat fs) (Join [gopath, ''src'']) (fsLstat fs (Join [gopath, ''src''])) initial)"

text \<open>The paths of the nodes of a tree, in the order of a walk that skips nothing.\<close>

fun nodePaths :: "string \<Rightarrow> fsnode \<Rightarrow> string list"
  and entryPaths :: "string \<Rightarrow> (string \<times> fsnode) list \<Rightarrow> string list"
where
  "nodePaths path File = [path]"
| "nodePaths path (Dir es) = path # entryPaths path es"
| "entryPaths path [] = []"
| "entryPaths path ((name, node) # es) = nodePaths (Join [path, name]) node @ entryPaths path es"

text \<open>The end-to-end scenario of the specification: three directories with a
  \<^verbatim>\<open>.git\<close> directory, one of them inside another.\<close>

definition gitDir :: "string \<times> fsnode" where
  "gitDir = (''.git'', Dir [])"

definition scenario :: fsnode where
  "scenario =
     Dir [(''ws'', Dir [(''src'', Dir [(''github.com'', Dir
       [(''alice'', Dir [(''proj1'', Dir [gitDir, (''vendor'', Dir [(''lib'', Dir [gitDir])])])]),
        (''bob'', Dir [(''proj2'', Dir [gitDir])])])])])]"


definition smallTree :: fsnode where
  "smallTree = Dir [(''repo'', Dir [gitDir]), (''notes'', File)]"

text \<open>The number of nodes of a tree.\<close>

fun nodeCount :: "fsnode \<Rightarrow> nat"
  and entryCount :: "(string \<times> fsnode) list \<Rightarrow> nat"
where
  "nodeCount File = 1"
| "nodeCount (Dir es) = 1 + entryCount es"
| "entryCount [] = 0"
| "entryCount ((name, node) # es) = nodeCount node + entryCount es"




section \<open>Facts about the catalog\<close>

lemma mapIndex_mapAssign_same: "mapIndex (mapAssign k True m) k"
  by (simp add: mapIndex_def mapAssign_def update_conv')

lemma mapIndex_mapAssign_other: "mapIndex m j \<Longrightarrow> mapIndex (mapAssign k True m) j"
  by (simp add: mapIndex_def mapAssign_def update_conv' split: option.splits)

lemma mapIndex_in_keys: "mapIndex m k \<Longrightarrow> k \<in> set (mapKeys m)"
  by (auto simp: mapIndex_def mapKeys_def split: option.splits dest: map_of_SomeD intro: rev_image_eqI)

lemma mapKeys_mapAssign: "set (mapKeys (mapAssign k v m)) = insert k (set (mapKeys m))"
  by (simp add: mapKeys_def mapAssign_def dom_update)

lemma distinct_mapAssign: "distinct (mapKeys m) \<Longrightarrow> distinct (mapKeys (mapAssign k v m))"
  by (simp add: mapKeys_def mapAssign_def distinct_update)

lemma sources_addSource:
  "sources (addSource x s) =
     (if mapIndex (sources s) x then sources s else mapAssign x True (sources s))"
  by (simp add: addSource_def Let_def)

lemma maxLength_addSource:
  "sl_maxLength (addSource x s) = max (sl_maxLength s) (len (st_source x))"
  by (simp add: addSource_def Let_def max_def)

lemma owners_addOwner:
  "owners (addOwner x l) =
     (if mapIndex (owners l) x then owners l else mapAssign x True (owners l))"
  by (simp add: addOwner_def Let_def)

lemma maxLength_addOwner:
  "ol_maxLength (addOwner x l) = max (ol_maxLength l) (len (ot_owner x))"
  by (simp add: addOwner_def Let_def max_def)

lemma mapIndex_addSource_same: "mapIndex (sources (addSource x s)) x"
  by (simp add: sources_addSource mapIndex_mapAssign_same)

lemma mapIndex_addOwner_same: "mapIndex (owners (addOwner x l)) x"
  by (simp add: owners_addOwner mapIndex_mapAssign_same)

lemma mapIndex_addSource_mono:
  "mapIndex (sources s) k \<Longrightarrow> mapIndex (sources (addSource x s)) k"
  by (simp add: sources_addSource mapIndex_mapAssign_other)

lemma mapIndex_addOwner_mono:
  "mapIndex (owners l) k \<Longrightarrow> mapIndex (owners (addOwner x l)) k"
  by (simp add: owners_addOwner mapIndex_mapAssign_other)

lemma addSource_idem: "addSource x (addSource x s) = addSource x s"
  by (rule sourcesList.equality)
     (simp_all add: sources_addSource maxLength_addSource mapIndex_mapAssign_same)

lemma addOwner_idem: "addOwner x (addOwner x l) = addOwner x l"
  by (rule ownersList.equality)
     (simp_all add: owners_addOwner maxLength_addOwner mapIndex_mapAssign_same)

lemma addAll_snoc: "addAll (rs @ [r]) p = AddRepo r (addAll rs p)"
  by (simp add: addAll_def)

lemma addAll_Nil: "addAll [] p = p"
  by (simp add: addAll_def)

lemma addSources_snoc: "addSources (xs @ [x]) s = addSource x (addSources xs s)"
  by (simp add: addSources_def)

lemma addOwners_snoc: "addOwners (xs @ [x]) l = addOwner x (addOwners xs l)"
  by (simp add: addOwners_def)

lemma repos_addAll: "repos (addAll rs p) = repos p @ rs"
  by (induction rs rule: rev_induct) (simp_all add: addAll_snoc addAll_Nil AddRepo_def)

lemma indexed_AddRepo: "indexed p \<Longrightarrow> indexed (AddRepo r p)"
  by (auto simp: indexed_def hasSource_def hasOwner_def AddRepo_def list_all_iff
      mapIndex_addSource_same mapIndex_addOwner_same
      mapIndex_addSource_mono mapIndex_addOwner_mono)

lemma indexed_addAll: "indexed p \<Longrightarrow> indexed (addAll rs p)"
  by (induction rs rule: rev_induct) (simp_all add: addAll_snoc addAll_Nil indexed_AddRepo)

lemma indexed_New: "indexed NewProjects"
  by (simp add: indexed_def NewProjects_def)

lemma keys_addSource:
  "set (mapKeys (sources (addSource x s))) = insert x (set (mapKeys (sources s)))"
  by (auto simp: sources_addSource mapKeys_mapAssign dest: mapIndex_in_keys)

lemma keys_addOwner:
  "set (mapKeys (owners (addOwner x l))) = insert x (set (mapKeys (owners l)))"
  by (auto simp: owners_addOwner mapKeys_mapAssign dest: mapIndex_in_keys)

lemma distinct_addSource:
  "distinct (mapKeys (sources s)) \<Longrightarrow> distinct (mapKeys (sources (addSource x s)))"
  by (simp add: sources_addSource distinct_mapAssign)

lemma distinct_addOwner:
  "distinct (mapKeys (owners l)) \<Longrightarrow> distinct (mapKeys (owners (addOwner x l)))"
  by (simp add: owners_addOwner distinct_mapAssign)

lemma source_keys_addAll:
  "set (mapKeys (sources (p_sources (addAll rs p)))) =
     set (mapKeys (sources (p_sources p))) \<union> (\<lambda>r. newSource (source r)) ` set rs"
  by (induction rs rule: rev_induct)
     (simp_all add: addAll_snoc addAll_Nil AddRepo_def keys_addSource)

lemma owner_keys_addAll:
  "set (mapKeys (owners (p_owners (addAll rs p)))) =
     set (mapKeys (owners (p_owners p))) \<union> (\<lambda>r. newOwner (owner r) (source r)) ` set rs"
  by (induction rs rule: rev_induct)
     (simp_all add: addAll_snoc addAll_Nil AddRepo_def keys_addOwner)

lemma distinct_source_keys_addAll:
  "distinct (mapKeys (sources (p_sources p))) \<Longrightarrow>
   distinct (mapKeys (sources (p_sources (addAll rs p))))"
  by (induction rs rule: rev_induct)
     (simp_all add: addAll_snoc addAll_Nil AddRepo_def distinct_addSource)

lemma distinct_owner_keys_addAll:
  "distinct (mapKeys (owners (p_owners p))) \<Longrightarrow>
   distinct (mapKeys (owners (p_owners (addAll rs p))))"
  by (induction rs rule: rev_induct)
     (simp_all add: addAll_snoc addAll_Nil AddRepo_def distinct_addOwner)

lemma inj_st_source: "inj_on (st_source :: sourceType \<Rightarrow> string) A"
  by (rule inj_onI) simp

lemma maxLength_addSources:
  "sl_maxLength (addSources xs s) = Max (set (sl_maxLength s # map (\<lambda>x. len (st_source x)) xs))"
proof (induction xs rule: rev_induct)
  case Nil
  show ?case by (simp add: addSources_def)
next
  case (snoc x xs)
  have "Max (set (sl_maxLength s # map (\<lambda>x. len (st_source x)) (xs @ [x])))
      = Max (insert (len (st_source x)) (set (sl_maxLength s # map (\<lambda>x. len (st_source x)) xs)))"
    by (simp add: insert_commute)
  also have "\<dots> = max (len (st_source x)) (Max (set (sl_maxLength s # map (\<lambda>x. len (st_source x)) xs)))"
    by (rule Max_insert) simp_all
  finally show ?case
    by (simp add: addSources_snoc maxLength_addSource snoc.IH max.commute)
qed

lemma maxLength_addOwners:
  "ol_maxLength (addOwners xs l) = Max (set (ol_maxLength l # map (\<lambda>x. len (ot_owner x)) xs))"
proof (induction xs rule: rev_induct)
  case Nil
  show ?case by (simp add: addOwners_def)
next
  case (snoc x xs)
  have "Max (set (ol_maxLength l # map (\<lambda>x. len (ot_owner x)) (xs @ [x])))
      = Max (insert (len (ot_owner x)) (set (ol_maxLength l # map (\<lambda>x. len (ot_owner x)) xs)))"
    by (simp add: insert_commute)
  also have "\<dots> = max (len (ot_owner x)) (Max (set (ol_maxLength l # map (\<lambda>x. len (ot_owner x)) xs)))"
    by (rule Max_insert) simp_all
  finally show ?case
    by (simp add: addOwners_snoc maxLength_addOwner snoc.IH max.commute)
qed

text \<open>
  C3, as the code has it. After any sequence of \<^verbatim>\<open>AddRepo\<close> calls on a fresh
  catalog, \<^verbatim>\<open>Sources()\<close> holds every source name of the sequence once. The
  owner index holds every pair of owner name and source name of the sequence
  once, and \<^verbatim>\<open>Owners()\<close> gives the owner name of each pair: its length is
  the number of distinct pairs, so a name comes once for each source it is
  found under.
\<close>

theorem Sources_distinct_Owners_per_pair:
  "distinct (Sources (addAll rs NewProjects)) \<and>
   set (Sources (addAll rs NewProjects)) = source ` set rs \<and>
   distinct (mapKeys (owners (p_owners (addAll rs NewProjects)))) \<and>
   set (mapKeys (owners (p_owners (addAll rs NewProjects)))) =
     (\<lambda>r. newOwner (owner r) (source r)) ` set rs \<and>
   Owners (addAll rs NewProjects) =
     map ot_owner (mapKeys (owners (p_owners (addAll rs NewProjects)))) \<and>
   length (Owners (addAll rs NewProjects)) = card ((\<lambda>r. (owner r, source r)) ` set rs)"
proof -
  let ?p = "addAll rs NewProjects"
  have e1: "mapKeys (sources (p_sources NewProjects)) = []"
    by (simp add: NewProjects_def newSourcesList_def mapKeys_def)
  have e2: "mapKeys (owners (p_owners NewProjects)) = []"
    by (simp add: NewProjects_def newOwnersList_def mapKeys_def)
  have d1: "distinct (mapKeys (sources (p_sources ?p)))"
    by (rule distinct_source_keys_addAll) (simp add: e1)
  have d2: "distinct (mapKeys (owners (p_owners ?p)))"
    by (rule distinct_owner_keys_addAll) (simp add: e2)
  have s1: "set (mapKeys (sources (p_sources ?p))) = (\<lambda>r. newSource (source r)) ` set rs"
    by (simp add: source_keys_addAll e1)
  have s2: "set (mapKeys (owners (p_owners ?p))) = (\<lambda>r. newOwner (owner r) (source r)) ` set rs"
    by (simp add: owner_keys_addAll e2)
  have a: "distinct (Sources ?p)"
    unfolding Sources_def by (simp add: distinct_map d1 inj_st_source)
  have b: "set (Sources ?p) = source ` set rs"
    unfolding Sources_def by (simp add: s1 image_image newSource_def)
  have "length (Owners ?p) = card (set (mapKeys (owners (p_owners ?p))))"
    by (simp add: Owners_def distinct_card[OF d2])
  also have "\<dots> = card ((\<lambda>k. (ot_owner k, ot_source k)) ` (\<lambda>r. newOwner (owner r) (source r)) ` set rs)"
    unfolding s2 by (rule card_image[symmetric]) (rule inj_onI, simp)
  also have "\<dots> = card ((\<lambda>r. (owner r, source r)) ` set rs)"
    by (simp add: image_image newOwner_def)
  finally have c: "length (Owners ?p) = card ((\<lambda>r. (owner r, source r)) ` set rs)" .
  show ?thesis using a b d2 s2 c by (simp add: Owners_def)
qed

theorem Sources_distinct_Owners_per_pair_witness:
  "distinct (Sources (addAll [\<lparr>source = ''a'', owner = ''x'', repo = ''r''\<rparr>,
                              \<lparr>source = ''b'', owner = ''x'', repo = ''r''\<rparr>,
                              \<lparr>source = ''a'', owner = ''x'', repo = ''q''\<rparr>] NewProjects)) \<and>
   length (Owners (addAll [\<lparr>source = ''a'', owner = ''x'', repo = ''r''\<rparr>,
                           \<lparr>source = ''b'', owner = ''x'', repo = ''r''\<rparr>,
                           \<lparr>source = ''a'', owner = ''x'', repo = ''q''\<rparr>] NewProjects)) = 2"
proof -
  note t = Sources_distinct_Owners_per_pair
    [of "[\<lparr>source = ''a'', owner = ''x'', repo = ''r''\<rparr>,
          \<lparr>source = ''b'', owner = ''x'', repo = ''r''\<rparr>,
          \<lparr>source = ''a'', owner = ''x'', repo = ''q''\<rparr>]"]
  have c: "card ((\<lambda>r. (owner r, source r)) ` set [\<lparr>source = ''a'', owner = ''x'', repo = ''r''\<rparr>,
          \<lparr>source = ''b'', owner = ''x'', repo = ''r''\<rparr>,
          \<lparr>source = ''a'', owner = ''x'', repo = ''q''\<rparr>]) = 2"
    by (simp add: card_insert_if)
  show ?thesis
    using t [THEN conjunct1]
      t [THEN conjunct2, THEN conjunct2, THEN conjunct2, THEN conjunct2, THEN conjunct2]
    unfolding c by (rule conjI)
qed

text \<open>
  C3, as the specification has it, fails for \<^verbatim>\<open>Owners()\<close>: one owner name
  under two sources is returned twice.
\<close>

theorem Owners_repeat_counterexample:
  "Owners (addAll [\<lparr>source = ''a'', owner = ''x'', repo = ''r''\<rparr>,
                   \<lparr>source = ''b'', owner = ''x'', repo = ''r''\<rparr>] NewProjects) = [''x'', ''x'']"
  by (simp add: Owners_def addAll_def NewProjects_def AddRepo_def addOwner_def addSource_def
      newOwnersList_def newSourcesList_def newOwner_def newSource_def mapIndex_def mapAssign_def
      mapKeys_def len_def Let_def)

text \<open>
  C4. From any catalog, a second \<^verbatim>\<open>AddRepo\<close> of the same repository leaves
  the source index and the owner index as the first call left them, so
  \<^verbatim>\<open>Sources()\<close>, \<^verbatim>\<open>Owners()\<close> and the owner index keep their sizes, while
  each of the two calls appends the repository to the sequence.
\<close>

theorem AddRepo_twice:
  "p_sources (AddRepo r (AddRepo r p)) = p_sources (AddRepo r p) \<and>
   p_owners (AddRepo r (AddRepo r p)) = p_owners (AddRepo r p) \<and>
   length (Sources (AddRepo r (AddRepo r p))) = length (Sources (AddRepo r p)) \<and>
   card (set (Sources (AddRepo r (AddRepo r p)))) = card (set (Sources (AddRepo r p))) \<and>
   length (mapKeys (owners (p_owners (AddRepo r (AddRepo r p))))) =
     length (mapKeys (owners (p_owners (AddRepo r p)))) \<and>
   length (Owners (AddRepo r (AddRepo r p))) = length (Owners (AddRepo r p)) \<and>
   repos (AddRepo r p) = repos p @ [r] \<and>
   repos (AddRepo r (AddRepo r p)) = repos (AddRepo r p) @ [r] \<and>
   length (repos (AddRepo r p)) = length (repos p) + 1 \<and>
   length (repos (AddRepo r (AddRepo r p))) = length (repos (AddRepo r p)) + 1"
  by (simp add: AddRepo_def Sources_def Owners_def addSource_idem addOwner_idem)

theorem AddRepo_twice_witness:
  "length (Sources (AddRepo \<lparr>source = ''a'', owner = ''x'', repo = ''r''\<rparr>
             (AddRepo \<lparr>source = ''a'', owner = ''x'', repo = ''r''\<rparr> NewProjects))) =
   length (Sources (AddRepo \<lparr>source = ''a'', owner = ''x'', repo = ''r''\<rparr> NewProjects)) \<and>
   length (repos (AddRepo \<lparr>source = ''a'', owner = ''x'', repo = ''r''\<rparr>
             (AddRepo \<lparr>source = ''a'', owner = ''x'', repo = ''r''\<rparr> NewProjects))) = 2"
  using AddRepo_twice [of "\<lparr>source = ''a'', owner = ''x'', repo = ''r''\<rparr>" NewProjects]
  by (simp add: NewProjects_def)

text \<open>
  C5. After any sequence of \<^verbatim>\<open>AddRepo\<close> calls on a fresh catalog the
  repository sequence is the sequence of the calls, and for each of its
  entries the source name is in the source index and the pair of owner name
  and source name is in the owner index. Every \<^verbatim>\<open>AddRepo\<close> call keeps this
  invariant (\<^const>\<open>indexed\<close>), from any catalog that has it.
\<close>

theorem AddRepo_indexed:
  "repos (addAll rs NewProjects) = rs \<and>
   (\<forall>r \<in> set rs. hasSource (addAll rs NewProjects) (source r) \<and>
                  hasOwner (addAll rs NewProjects) (owner r) (source r)) \<and>
   indexed (addAll rs NewProjects) \<and>
   (indexed p \<longrightarrow> indexed (AddRepo r p))"
proof -
  have i: "indexed (addAll rs NewProjects)"
    by (rule indexed_addAll [OF indexed_New])
  have r: "repos (addAll rs NewProjects) = rs"
    by (simp add: repos_addAll NewProjects_def)
  from i r have "\<forall>r \<in> set rs. hasSource (addAll rs NewProjects) (source r) \<and>
                  hasOwner (addAll rs NewProjects) (owner r) (source r)"
    by (simp add: indexed_def list_all_iff)
  with i r show ?thesis by (simp add: indexed_AddRepo)
qed

theorem AddRepo_indexed_witness:
  "hasSource (addAll [\<lparr>source = ''a'', owner = ''x'', repo = ''r''\<rparr>,
                      \<lparr>source = ''b'', owner = ''y'', repo = ''q''\<rparr>] NewProjects) ''b'' \<and>
   hasOwner (addAll [\<lparr>source = ''a'', owner = ''x'', repo = ''r''\<rparr>,
                     \<lparr>source = ''b'', owner = ''y'', repo = ''q''\<rparr>] NewProjects) ''x'' ''a'' \<and>
   indexed (AddRepo \<lparr>source = ''a'', owner = ''x'', repo = ''r''\<rparr> NewProjects) \<and>
   indexed (AddRepo \<lparr>source = ''b'', owner = ''y'', repo = ''q''\<rparr>
             (AddRepo \<lparr>source = ''a'', owner = ''x'', repo = ''r''\<rparr> NewProjects))"
proof -
  have h: "indexed (AddRepo \<lparr>source = ''a'', owner = ''x'', repo = ''r''\<rparr> NewProjects)"
    by code_simp
  show ?thesis
    using h
      AddRepo_indexed [of "[\<lparr>source = ''a'', owner = ''x'', repo = ''r''\<rparr>,
                            \<lparr>source = ''b'', owner = ''y'', repo = ''q''\<rparr>]"
                          "AddRepo \<lparr>source = ''a'', owner = ''x'', repo = ''r''\<rparr> NewProjects"
                          "\<lparr>source = ''b'', owner = ''y'', repo = ''q''\<rparr>"]
    by simp
qed

text \<open>
  C10. After any sequence of \<^verbatim>\<open>addSource\<close> calls on a fresh
  \<^verbatim>\<open>sourcesList\<close>, \<^verbatim>\<open>maxLength\<close> is the greatest length of the source names
  passed, 0 when there were none; one call takes it to the maximum of its old
  value and the length of the name passed, whether that source was in the set
  or not. The same holds of \<^verbatim>\<open>addOwner\<close> and the owner names.
\<close>

theorem maxLength_is_maximum:
  "sl_maxLength (addSources xs newSourcesList) = Max (set (0 # map (\<lambda>x. len (st_source x)) xs)) \<and>
   sl_maxLength (addSource x s) = max (sl_maxLength s) (len (st_source x)) \<and>
   ol_maxLength (addOwners ys newOwnersList) = Max (set (0 # map (\<lambda>y. len (ot_owner y)) ys)) \<and>
   ol_maxLength (addOwner y l) = max (ol_maxLength l) (len (ot_owner y))"
  by (simp add: maxLength_addSources maxLength_addOwners maxLength_addSource maxLength_addOwner
      newSourcesList_def newOwnersList_def)

theorem maxLength_is_maximum_witness:
  "sl_maxLength (addSources [newSource ''github.com'', newSource ''a'', newSource ''github.com'']
                   newSourcesList) = 10 \<and>
   sl_maxLength (addSource (newSource ''a'') \<lparr>sources = [(newSource ''a'', True)], sl_maxLength = 0\<rparr>) = 1 \<and>
   ol_maxLength (addOwners [newOwner ''bob'' ''a'', newOwner ''alice'' ''a''] newOwnersList) = 5 \<and>
   ol_maxLength (addOwner (newOwner ''bob'' ''a'') \<lparr>owners = [(newOwner ''bob'' ''a'', True)], ol_maxLength = 0\<rparr>) = 3"
  using maxLength_is_maximum
    [of "[newSource ''github.com'', newSource ''a'', newSource ''github.com'']"
        "newSource ''a''" "\<lparr>sources = [(newSource ''a'', True)], sl_maxLength = 0\<rparr>"
        "[newOwner ''bob'' ''a'', newOwner ''alice'' ''a'']"
        "newOwner ''bob'' ''a''" "\<lparr>owners = [(newOwner ''bob'' ''a'', True)], ol_maxLength = 0\<rparr>"]
  by (simp add: newSource_def newOwner_def len_def)

section \<open>Facts about the decomposition and the check\<close>

lemma Split_nonempty: "Split s c \<noteq> []"
  by (induction s) (simp_all split: list.splits)

lemma parsegoRepo_decompose:
  assumes "3 \<le> length (Split path Separator)"
  shows "parsegoRepo path p =
           Inr (AddRepo \<lparr>source = Split path Separator ! (length (Split path Separator) - 1),
                         owner = Split path Separator ! (length (Split path Separator) - 2),
                         repo = Split path Separator ! (length (Split path Separator) - 3)\<rparr> p)"
proof -
  let ?parts = "Split path Separator"
  let ?n = "int (length ?parts)"
  have 1: "index ?parts (?n - 1) = Inr (?parts ! (length ?parts - 1))"
    using assms by (simp add: index_def nat_diff_distrib' Split_nonempty)
  have 2: "index ?parts (?n - 2) = Inr (?parts ! (length ?parts - 2))"
    using assms by (simp add: index_def nat_diff_distrib' Split_nonempty)
  have 3: "index ?parts (?n - 3) = Inr (?parts ! (length ?parts - 3))"
    using assms by (simp add: index_def nat_diff_distrib' Split_nonempty)
  show ?thesis
    by (simp add: parsegoRepo_def Let_def 1 2 3)
qed

text \<open>
  C2. When the path splits into n segments and n is at least 3,
  \<^verbatim>\<open>parsegoRepo\<close> adds the repository whose source is segment n-1, whose
  owner is segment n-2 and whose repo is segment n-3, each as it stands.
\<close>

theorem parsegoRepo_last_three:
  assumes "3 \<le> length (Split path Separator)"
  shows "parsegoRepo path p =
           Inr (AddRepo \<lparr>source = Split path Separator ! (length (Split path Separator) - 1),
                         owner = Split path Separator ! (length (Split path Separator) - 2),
                         repo = Split path Separator ! (length (Split path Separator) - 3)\<rparr> p)"
  using assms by (rule parsegoRepo_decompose)

theorem parsegoRepo_last_three_witness:
  "3 \<le> length (Split ''/ws/src/github.com/alice/proj1'' Separator) \<and>
   parsegoRepo ''/ws/src/github.com/alice/proj1'' NewProjects =
     Inr (AddRepo \<lparr>source = ''proj1'', owner = ''alice'', repo = ''github.com''\<rparr> NewProjects)"
proof -
  have h: "3 \<le> length (Split ''/ws/src/github.com/alice/proj1'' Separator)"
    by (simp add: Separator_def)
  show ?thesis
    using h parsegoRepo_last_three [OF h, of NewProjects] by (simp add: Separator_def)
qed

text \<open>
  C7. When the path splits into at least 3 segments, the three index accesses
  of \<^verbatim>\<open>parsegoRepo\<close> are in range and it returns a catalog. When it splits
  into fewer, \<^verbatim>\<open>parsegoRepo\<close> panics with an index out of range; such a path
  exists.
\<close>

theorem parsegoRepo_bounds:
  "(3 \<le> length (Split path Separator) \<longrightarrow>
      (\<exists>a b c p'. index (Split path Separator) (int (length (Split path Separator)) - 1) = Inr a \<and>
                  index (Split path Separator) (int (length (Split path Separator)) - 2) = Inr b \<and>
                  index (Split path Separator) (int (length (Split path Separator)) - 3) = Inr c \<and>
                  parsegoRepo path p = Inr p')) \<and>
   (length (Split path Separator) < 3 \<longrightarrow> parsegoRepo path p = Inl IndexOutOfRange) \<and>
   (\<exists>short. length (Split short Separator) < 3 \<and> parsegoRepo short p = Inl IndexOutOfRange)"
proof -
  have ge: "3 \<le> length (Split q Separator) \<Longrightarrow>
      (\<exists>a b c p'. index (Split q Separator) (int (length (Split q Separator)) - 1) = Inr a \<and>
                  index (Split q Separator) (int (length (Split q Separator)) - 2) = Inr b \<and>
                  index (Split q Separator) (int (length (Split q Separator)) - 3) = Inr c \<and>
                  parsegoRepo q p = Inr p')" for q
    by (simp add: parsegoRepo_def Let_def index_def Split_nonempty)
  have lt: "length (Split q Separator) < 3 \<Longrightarrow> parsegoRepo q p = Inl IndexOutOfRange" for q
    by (auto simp: parsegoRepo_def Let_def index_def split: sum.splits)
  have "length (Split ''src'' Separator) < 3"
    by (simp add: Separator_def)
  with lt [of "''src''"]
  have "\<exists>short. length (Split short Separator) < 3 \<and> parsegoRepo short p = Inl IndexOutOfRange"
    by blast
  with ge lt show ?thesis by blast
qed

theorem parsegoRepo_bounds_witness:
  "(\<exists>p'. parsegoRepo ''/ws/src/github.com/alice/proj1'' NewProjects = Inr p') \<and>
   parsegoRepo ''/src'' NewProjects = Inl IndexOutOfRange"
proof -
  have a: "3 \<le> length (Split ''/ws/src/github.com/alice/proj1'' Separator)"
    by (simp add: Separator_def)
  have b: "length (Split ''/src'' Separator) < 3"
    by (simp add: Separator_def)
  from parsegoRepo_bounds [of "''/ws/src/github.com/alice/proj1''" NewProjects] a
  have 1: "\<exists>p'. parsegoRepo ''/ws/src/github.com/alice/proj1'' NewProjects = Inr p'"
    by blast
  from parsegoRepo_bounds [of "''/src''" NewProjects] b
  have 2: "parsegoRepo ''/src'' NewProjects = Inl IndexOutOfRange"
    by blast
  from 1 2 show ?thesis by blast
qed

text \<open>
  What the check does, for any \<^verbatim>\<open>os.Stat\<close>. It returns true exactly when
  \<^verbatim>\<open>os.Stat\<close> finds a directory at the path and a directory at \<^verbatim>\<open>.git\<close>
  under it. It returns false when \<^verbatim>\<open>os.Stat\<close> finds something that is not a
  directory, or fails with an error of which \<^verbatim>\<open>os.IsNotExist\<close> holds. It
  panics when \<^verbatim>\<open>os.Stat\<close> of the path fails with any other error.
\<close>

lemma isGogoRepo_iff:
  "(isGogoRepo Stat path = Inr True \<longleftrightarrow>
      Stat path = Inr \<lparr>IsDir = True\<rparr> \<and> Stat (Join [path, ''.git'']) = Inr \<lparr>IsDir = True\<rparr>) \<and>
   (Stat path = Inl ErrNotExist \<or> Stat path = Inr \<lparr>IsDir = False\<rparr> \<longrightarrow>
      isGogoRepo Stat path = Inr False)"
  by (auto simp: isGogoRepo_def isGitRoot_def isDir_def IsNotExist_def split: sum.splits if_splits)

lemma isGogoRepo_iff_examples:
  "isGogoRepo (fsStat smallTree) ''/repo'' = Inr True \<and>
   isGogoRepo (fsStat smallTree) ''/notes'' = Inr False \<and>
   isGogoRepo (fsStat smallTree) ''/missing'' = Inr False"
proof -
  have a: "fsStat smallTree ''/repo'' = Inr \<lparr>IsDir = True\<rparr>"
    by code_simp
  have b: "fsStat smallTree (Join [''/repo'', ''.git'']) = Inr \<lparr>IsDir = True\<rparr>"
    by code_simp
  have c: "fsStat smallTree ''/notes'' = Inr \<lparr>IsDir = False\<rparr>"
    by code_simp
  have d: "fsStat smallTree ''/missing'' = Inl ErrNotExist"
    by code_simp
  from isGogoRepo_iff [of "fsStat smallTree" "''/repo''"] a b
  have 1: "isGogoRepo (fsStat smallTree) ''/repo'' = Inr True"
    by blast
  from isGogoRepo_iff [of "fsStat smallTree" "''/notes''"] c
  have 2: "isGogoRepo (fsStat smallTree) ''/notes'' = Inr False"
    by blast
  from isGogoRepo_iff [of "fsStat smallTree" "''/missing''"] d
  have 3: "isGogoRepo (fsStat smallTree) ''/missing'' = Inr False"
    by blast
  from 1 2 3 show ?thesis by blast
qed

lemma isGogoRepo_other_error:
  "Stat path = Inl ErrOther \<Longrightarrow> isGogoRepo Stat path = Inl NilDereference"
  by (simp add: isGogoRepo_def isDir_def IsNotExist_def)

text \<open>
  C8, on the code. The path \<^verbatim>\<open>/notes/x\<close> does not exist where \<^verbatim>\<open>/notes\<close> is
  a regular file. \<^verbatim>\<open>os.Stat\<close> fails there with an error of which
  \<^verbatim>\<open>os.IsNotExist\<close> does not hold (a file stands where a directory is
  expected), so \<^verbatim>\<open>isDir\<close> calls \<^verbatim>\<open>IsDir\<close> on a \<^verbatim>\<open>nil\<close> \<^verbatim>\<open>FileInfo\<close>:
  the check panics instead of returning false.
\<close>

theorem isGogoRepo_missing_path_panics:
  "fsLstat smallTree ''/notes'' = Some File \<and>
   fsLstat smallTree ''/notes/x'' = None \<and>
   fsStat smallTree ''/notes/x'' = Inl ErrOther \<and>
   isDir (fsStat smallTree) ''/notes/x'' = Inl NilDereference \<and>
   isGogoRepo (fsStat smallTree) ''/notes/x'' = Inl NilDereference"
  by code_simp

section \<open>Facts about the walk\<close>

lemma visit_visited:
  "visit Stat path w = Inr (r, w') \<Longrightarrow> visited w' = visited w @ [path]"
  by (auto simp: visit_def Let_def split: sum.splits if_splits)

lemma walk_visits:
  "(\<forall>r w'. walk Stat path node w = Inr (r, w') \<longrightarrow>
      (\<exists>ys. visited w' = visited w @ ys \<and> subseq ys (nodePaths path node)))"
  "(\<forall>r w'. walkEntries Stat path es w = Inr (r, w') \<longrightarrow>
      (\<exists>ys. visited w' = visited w @ ys \<and> subseq ys (entryPaths path es)))"
proof (induction Stat path node w and Stat path es w rule: walk_walkEntries.induct)
  case (1 Stat path w)
  show ?case by (auto dest: visit_visited)
next
  case (2 Stat path es w)
  show ?case
  proof (intro allI impI)
    fix r w' assume a: "walk Stat path (Dir es) w = Inr (r, w')"
    then obtain err1 w1 where v: "visit Stat path w = Inr (err1, w1)"
      by (auto split: sum.splits)
    have vis: "visited w1 = visited w @ [path]" using v by (rule visit_visited)
    show "\<exists>ys. visited w' = visited w @ ys \<and> subseq ys (nodePaths path (Dir es))"
    proof (cases "err1 = ErrNil")
      case False
      with a v have "w' = w1" by simp
      with vis show ?thesis by (intro exI[of _ "[path]"]) simp
    next
      case True
      with a v have e: "walkEntries Stat path es w1 = Inr (r, w')" by simp
      from 2[OF v refl] True e obtain ys where
        "visited w' = visited w1 @ ys" "subseq ys (entryPaths path es)" by auto
      with vis show ?thesis by (intro exI[of _ "path # ys"]) simp
    qed
  qed
next
  case (3 Stat path w)
  show ?case by simp
next
  case (4 Stat path name node es w)
  show ?case
  proof (intro allI impI)
    fix r w' assume a: "walkEntries Stat path ((name, node) # es) w = Inr (r, w')"
    then obtain err w1 where v: "walk Stat (Join [path, name]) node w = Inr (err, w1)"
      by (auto split: sum.splits)
    from 4(1) v obtain xs where xs: "visited w1 = visited w @ xs"
        "subseq xs (nodePaths (Join [path, name]) node)" by blast
    show "\<exists>ys. visited w' = visited w @ ys \<and> subseq ys (entryPaths path ((name, node) # es))"
    proof (cases "err \<noteq> ErrNil \<and> (\<not> isDirNode node \<or> err \<noteq> SkipDir)")
      case True
      with a v have "w' = w1" by simp
      with xs show ?thesis
        by (intro exI[of _ xs]) (simp add: subseq_rev_drop_many)
    next
      case False
      with a v have e: "walkEntries Stat path es w1 = Inr (r, w')" by (auto split: if_splits)
      from 4(2)[OF v refl] False e obtain ys where
        "visited w' = visited w1 @ ys" "subseq ys (entryPaths path es)" by auto
      with xs show ?thesis
        by (intro exI[of _ "xs @ ys"]) (simp add: list_emb_append_mono)
    qed
  qed
qed

lemma length_nodePaths:
  "length (nodePaths path node) = nodeCount node"
  "length (entryPaths path es) = entryCount es"
  by (induction path node and path es rule: nodePaths_entryPaths.induct) simp_all



text \<open>
  C9. On every finite tree the walk ends: \<^const>\<open>walk\<close> is a total function,
  defined by recursion on the tree, so \<^verbatim>\<open>Walk\<close> either panics or returns.
  When it returns, the paths it has visited, in order, are a subsequence of
  the paths of the nodes of the tree, each node counted once, in the order of
  a full walk: no node is visited twice, pruning only leaves nodes out, and
  there are at most as many visits as nodes. When \<^verbatim>\<open>os.Lstat\<close> of the root
  fails, the root is the one path visited.
\<close>

theorem Walk_terminates:
  "(\<exists>e. Walk Stat root info w = Inl e) \<or>
   (\<exists>w' ys. Walk Stat root info w = Inr w' \<and> visited w' = visited w @ ys \<and>
      subseq ys (case info of None \<Rightarrow> [root] | Some node \<Rightarrow> nodePaths root node) \<and>
      length ys \<le> (case info of None \<Rightarrow> 1 | Some node \<Rightarrow> nodeCount node))"
proof (cases "Walk Stat root info w")
  case (Inl e)
  then show ?thesis by blast
next
  case (Inr w')
  have "\<exists>ys. visited w' = visited w @ ys \<and>
      subseq ys (case info of None \<Rightarrow> [root] | Some node \<Rightarrow> nodePaths root node)"
  proof (cases info)
    case None
    with Inr obtain r where "visit Stat root w = Inr (r, w')"
      by (auto simp: Walk_def split: sum.splits)
    from visit_visited [OF this] None show ?thesis by simp
  next
    case (Some node)
    with Inr obtain r where "walk Stat root node w = Inr (r, w')"
      by (auto simp: Walk_def split: sum.splits)
    with walk_visits(1) Some show ?thesis by simp
  qed
  then obtain ys where ys: "visited w' = visited w @ ys"
      "subseq ys (case info of None \<Rightarrow> [root] | Some node \<Rightarrow> nodePaths root node)" by blast
  from ys(2) have "length ys \<le> length (case info of None \<Rightarrow> [root] | Some node \<Rightarrow> nodePaths root node)"
    by (rule list_emb_length)
  then have "length ys \<le> (case info of None \<Rightarrow> 1 | Some node \<Rightarrow> nodeCount node)"
    by (simp add: length_nodePaths split: option.splits)
  with Inr ys show ?thesis by blast
qed

theorem Walk_terminates_witness:
  "\<exists>w'. Walk (fsStat scenario) ''/ws/src'' (fsLstat scenario ''/ws/src'') initial = Inr w' \<and>
      length (visited w') \<le> 11"
proof -
  have a: "Walk (fsStat scenario) ''/ws/src'' (fsLstat scenario ''/ws/src'') initial \<noteq> Inl e" for e
    by (cases e; code_simp)
  have b: "(case fsLstat scenario ''/ws/src'' of None \<Rightarrow> 1 | Some node \<Rightarrow> nodeCount node) = 11"
    by code_simp
  have c: "visited initial = []"
    by (simp add: initial_def)
  from Walk_terminates [of "fsStat scenario" "''/ws/src''" "fsLstat scenario ''/ws/src''" initial] a
  show ?thesis unfolding b c by auto
qed






text \<open>
  C1, on the code. In the scenario the walk visits six directories, none of
  them below \<^verbatim>\<open>proj1\<close> or \<^verbatim>\<open>proj2\<close>, and adds two repositories. The
  source of each is the last segment of its path, so \<^verbatim>\<open>Sources()\<close> holds
  \<^verbatim>\<open>proj1\<close> and \<^verbatim>\<open>proj2\<close>, not \<^verbatim>\<open>github.com\<close>, which is the repo field of
  both; \<^verbatim>\<open>Owners()\<close> holds \<^verbatim>\<open>alice\<close> and \<^verbatim>\<open>bob\<close>.
\<close>

theorem main_scenario:
  "main scenario ''/ws'' =
     Inr \<lparr>allProjects =
            addAll [\<lparr>source = ''proj1'', owner = ''alice'', repo = ''github.com''\<rparr>,
                    \<lparr>source = ''proj2'', owner = ''bob'', repo = ''github.com''\<rparr>] NewProjects,
          visited = [''/ws/src'', ''/ws/src/github.com'', ''/ws/src/github.com/alice'',
                     ''/ws/src/github.com/alice/proj1'', ''/ws/src/github.com/bob'',
                     ''/ws/src/github.com/bob/proj2'']\<rparr> \<and>
   repos (addAll [\<lparr>source = ''proj1'', owner = ''alice'', repo = ''github.com''\<rparr>,
                  \<lparr>source = ''proj2'', owner = ''bob'', repo = ''github.com''\<rparr>] NewProjects) =
     [\<lparr>source = ''proj1'', owner = ''alice'', repo = ''github.com''\<rparr>,
      \<lparr>source = ''proj2'', owner = ''bob'', repo = ''github.com''\<rparr>] \<and>
   Sources (addAll [\<lparr>source = ''proj1'', owner = ''alice'', repo = ''github.com''\<rparr>,
                    \<lparr>source = ''proj2'', owner = ''bob'', repo = ''github.com''\<rparr>] NewProjects) =
     [''proj1'', ''proj2''] \<and>
   Owners (addAll [\<lparr>source = ''proj1'', owner = ''alice'', repo = ''github.com''\<rparr>,
                   \<lparr>source = ''proj2'', owner = ''bob'', repo = ''github.com''\<rparr>] NewProjects) =
     [''alice'', ''bob'']"
  by code_simp

end
